theory Spec2Isabelle
  imports Main "HOL-Library.Word"
begin

section \<open>Conventions of the embedding\<close>

text \<open>
  The Go sources of the watcher are embedded function by function.

  \<^item> \<open>time.Duration\<close> is an \<open>int64\<close> count of nanoseconds: a \<open>64 word\<close>, read with
    \<open>sint\<close>; \<open>+\<close>, \<open>-\<close> and \<open>*\<close> wrap around as Go's do. Go's \<open>int\<close> is taken at its
    64-bit width wherever the code computes with it (the attempt counter, the
    \<open>Consecutive\<close> counter); an \<open>int\<close> that is only compared (ports, exit codes,
    HTTP status codes) is an \<open>int\<close>.
  \<^item> \<open>time.Time\<close> is the number of nanoseconds of the UTC wall clock, an \<open>int\<close>.
  \<^item> A Go \<open>error\<close> is \<open>string option\<close>: \<open>None\<close> is \<open>nil\<close>, \<open>Some m\<close> carries
    the message. A pointer that may be \<open>nil\<close> is an \<open>option\<close>.
  \<^item> A call that leaves the process (network, file system, clock, the regular
    expressions and the JSON decoder of the Go library) is a parameter: the function
    takes what the call returned.
  \<^item> Two structs of the source that share a field name get the struct's name as suffix
    on the later one. A nested struct of one field is flattened: \<open>Expect.StatusCode\<close> is
    \<open>Expect_StatusCode\<close>. A struct that only wraps another (\<open>HTTPPinger\<close> around its
    \<open>HTTPCheck\<close>, \<open>SSHClient\<close> around its \<open>SSHClientConfig\<close>) is the wrapped one.
\<close>

type_synonym Duration = "64 word"
type_synonym Time = int
type_synonym error = "string option"

datatype 'a go = Returns 'a | Panics

text \<open>The decimal rendering of \<open>%d\<close> in \<open>fmt\<close>.\<close>

fun digits :: "nat \<Rightarrow> string" where
  "digits n =
     (if n < 10 then [char_of (48 + n)]
      else digits (n div 10) @ [char_of (48 + n mod 10)])"

declare digits.simps [simp del]

definition itoa :: "int \<Rightarrow> string" where
  "itoa i = (if i < 0 then CHR ''-'' # digits (nat (- i)) else digits (nat i))"


section \<open>Package ping: results\<close>

text \<open>\<open>pinger.go\<close>: the three status constants are \<open>iota\<close> 0, 1, 2, so the zero value of a
  \<open>Status\<close> is \<open>StatusUnknown\<close>.\<close>

datatype Status = StatusUnknown | StatusOK | StatusNOK

record Result =
  Status :: Status
  Error :: error

text \<open>The \<open>*bytes.Buffer\<close> that a ping returns beside its result.\<close>

type_synonym Output = "string option"

definition zero_Result :: Result where
  "zero_Result = \<lparr>Status = StatusUnknown, Error = None\<rparr>"


section \<open>Package config\<close>

record Retries =
  Attempts :: "64 word"
  Delay :: Duration
  ExponentialBackoff :: bool

record Schedule =
  Interval :: "Duration option"
  Retries :: "Retries option"

record HTTPBasicAuth =
  Username :: string
  Password :: string

record HTTPCheck =
  URL :: string
  VerifyCert :: bool
  BasicAuth :: "HTTPBasicAuth option"
  Expect_StatusCode :: int
  Timeout :: "Duration option"

record SSHAuth =
  Username_SSHAuth :: string
  Password_SSHAuth :: "string option"
  Key :: "string option"
  Agent :: bool

record SSHCheck =
  Host :: string
  Port :: int
  Auth :: SSHAuth
  Command :: string
  CommandFile :: string
  Expect_ExitCode :: int
  Timeout_SSHCheck :: "Duration option"

record EmailAuth =
  Username_EmailAuth :: string
  Password_EmailAuth :: string

record Email =
  SMTPHost :: string
  SMTPPort :: int
  Auth_Email :: "EmailAuth option"
  From :: string
  To :: "string list"

record Alerter_conf =
  AdvertisedIP :: string
  AdvertisedPort :: int
  ReminderDelay :: Duration
  Email :: "Email option"

text \<open>\<open>config.Pinger\<close>; \<open>Check\<close> is the raw JSON of the check.\<close>

record Pinger_conf =
  Name :: string
  Type :: string
  Check :: string
  Schedule :: "Schedule option"

text \<open>\<open>config.Engine\<close>.\<close>

record Engine_conf =
  DefaultSchedule :: "Schedule option"
  Pingers :: "Pinger_conf list"
  Alerter :: "Alerter_conf option"

text \<open>
  What \<open>json.Unmarshal\<close> of the Go library does on a raw check. It fails with an
  error, or it returns the decoded struct, or it reaches the value of a \<open>Duration\<close>
  field (the \<open>timeout\<close> of a check) and calls \<open>UnmarshalJSON\<close> of \<open>config.Duration\<close>, which
  is code of the repository, on the bytes of that value; how it goes on depends on the
  duration that this call has set.
\<close>

datatype 'a decoder =
  Decode_error string
| Decoded 'a
| Decode_Duration string "Duration \<Rightarrow> 'a decoder"

text \<open>What the Go library answers during construction and validation: the JSON decoder
  on a raw check, \<open>time.ParseDuration\<close>, \<open>url.Parse\<close>, \<open>mail.ParseAddress\<close>, \<open>os.Stat\<close>,
  \<open>ioutil.ReadFile\<close>, the regular expressions and \<open>strings.TrimSpace\<close>.\<close>

record Env =
  json_HTTPCheck :: "string \<Rightarrow> HTTPCheck decoder"
  json_SSHCheck :: "string \<Rightarrow> SSHCheck decoder"
  time_ParseDuration :: "string \<Rightarrow> string + Duration"
  mail_ParseAddress :: "string \<Rightarrow> error"
  validPingerName :: "string \<Rightarrow> bool"
  url_Parse :: "string \<Rightarrow> error"
  os_Stat :: "string \<Rightarrow> error"
  ioutil_ReadFile :: "string \<Rightarrow> string + string"
  ipv4AddrRegexp :: "string \<Rightarrow> bool"
  hostnameRegexp :: "string \<Rightarrow> bool"
  usernameRegexp :: "string \<Rightarrow> bool"
  strings_TrimSpace :: "string \<Rightarrow> string"

text \<open>
  \<open>Duration.UnmarshalJSON\<close>. The slice expression \<open>b[1 : len(b)-1]\<close> is out of range
  when \<open>b\<close> has fewer than two bytes, and Go panics there; otherwise \<open>sd\<close> is \<open>b\<close> without
  its first and its last byte, and the result is that of \<open>time.ParseDuration\<close>.
\<close>

definition Duration_UnmarshalJSON :: "Env \<Rightarrow> string \<Rightarrow> (string + Duration) go" where
  "Duration_UnmarshalJSON env b =
     (if length b < 2 then Panics
      else (let sd = take (length b - 2) (drop 1 b) in Returns (time_ParseDuration env sd)))"

text \<open>\<open>json.Unmarshal\<close> on a raw check: an error of \<open>UnmarshalJSON\<close> is the error of
  \<open>json.Unmarshal\<close>, and a panic of \<open>UnmarshalJSON\<close> is not recovered.\<close>

primrec json_Unmarshal :: "Env \<Rightarrow> 'a decoder \<Rightarrow> (string + 'a) go" where
  "json_Unmarshal env (Decode_error err) = Returns (Inl err)"
| "json_Unmarshal env (Decoded v) = Returns (Inr v)"
| "json_Unmarshal env (Decode_Duration b continue) =
     (case Duration_UnmarshalJSON env b of
        Panics \<Rightarrow> Panics
      | Returns (Inl err) \<Rightarrow> Returns (Inl err)
      | Returns (Inr d) \<Rightarrow> json_Unmarshal env (continue d))"

definition ValidHostOrIpAddr :: "Env \<Rightarrow> string \<Rightarrow> bool" where
  "ValidHostOrIpAddr env hostOrIp \<longleftrightarrow> ipv4AddrRegexp env hostOrIp \<or> hostnameRegexp env hostOrIp"

definition ValidPort :: "int \<Rightarrow> bool" where
  "ValidPort port \<longleftrightarrow> port > 0 \<and> port < 65535"

definition ValidHTTPStatusCode :: "int \<Rightarrow> bool" where
  "ValidHTTPStatusCode statusCode \<longleftrightarrow> statusCode \<ge> 100 \<and> statusCode < 600"

definition Retries_Validate :: "Retries \<Rightarrow> error" where
  "Retries_Validate retry =
     (if Attempts retry <s 0 then Some ''retries: attempts must be a positive number''
      else None)"

definition Schedule_Validate :: "Schedule \<Rightarrow> error" where
  "Schedule_Validate schedule =
     (case Interval schedule of
        None \<Rightarrow> Some ''schedule: missing interval''
      | Some _ \<Rightarrow>
          (case Retries schedule of
             None \<Rightarrow> Some ''schedule: missing retries''
           | Some retries \<Rightarrow>
               (case Retries_Validate retries of
                  Some err \<Rightarrow> Some (''schedule: '' @ err)
                | None \<Rightarrow> None)))"

definition HTTPBasicAuth_Validate :: "Env \<Rightarrow> HTTPBasicAuth \<Rightarrow> error" where
  "HTTPBasicAuth_Validate env auth =
     (if length (strings_TrimSpace env (Username auth)) = 0
        then Some ''basicAuth: no username given''
      else if length (strings_TrimSpace env (Password auth)) = 0
        then Some ''basicAuth: no password given''
      else None)"

definition HTTPExpectation_Validate :: "int \<Rightarrow> error" where
  "HTTPExpectation_Validate statusCode =
     (if \<not> ValidHTTPStatusCode statusCode
        then Some (''http expect: illegal statusCode: '' @ itoa statusCode)
      else None)"

definition HTTPCheck_Validate :: "Env \<Rightarrow> HTTPCheck \<Rightarrow> error" where
  "HTTPCheck_Validate env check =
     (case url_Parse env (URL check) of
        Some err \<Rightarrow> Some (''http check: invalid URL: '' @ err)
      | None \<Rightarrow>
          (case (case BasicAuth check of
                   Some auth \<Rightarrow> HTTPBasicAuth_Validate env auth
                 | None \<Rightarrow> None) of
             Some err \<Rightarrow> Some (''http check: '' @ err)
           | None \<Rightarrow>
               (case HTTPExpectation_Validate (Expect_StatusCode check) of
                  Some err \<Rightarrow> Some (''http check: '' @ err)
                | None \<Rightarrow> None)))"

definition SSHAuth_Validate :: "Env \<Rightarrow> SSHAuth \<Rightarrow> error" where
  "SSHAuth_Validate env auth =
     (if \<not> usernameRegexp env (Username_SSHAuth auth)
        then Some (''auth: illegal username: '' @ [CHR 0x27] @ Username_SSHAuth auth @ [CHR 0x27])
      else if Key auth = None \<and> Password_SSHAuth auth = None \<and> \<not> Agent auth
        then Some ''auth: no auth method given (at least one of password, key, or agent auth must be specified)''
      else None)"

definition SSHExpectation_Validate :: "int \<Rightarrow> error" where
  "SSHExpectation_Validate exitCode =
     (if exitCode < 0 \<or> exitCode > 255
        then Some ''expect: exitCode must be in the range [0,255]''
      else None)"

definition SSHCheck_Validate :: "Env \<Rightarrow> SSHCheck \<Rightarrow> error" where
  "SSHCheck_Validate env check =
     (if \<not> ValidHostOrIpAddr env (Host check)
        then Some (''ssh check: illegal host: '' @ [CHR 0x27] @ Host check @ [CHR 0x27])
      else if \<not> ValidPort (Port check)
        then Some (''ssh check: illegal port: '' @ [CHR 0x27] @ itoa (Port check) @ [CHR 0x27])
      else
        (case SSHAuth_Validate env (Auth check) of
           Some err \<Rightarrow> Some (''ssh check: '' @ err)
         | None \<Rightarrow>
             (case SSHExpectation_Validate (Expect_ExitCode check) of
                Some err \<Rightarrow> Some (''ssh check: '' @ err)
              | None \<Rightarrow>
                  if Command check = [] \<and> CommandFile check = []
                    then Some ''ssh check: neither command nor commandFile given''
                  else if Command check \<noteq> [] \<and> CommandFile check \<noteq> []
                    then Some ''ssh check: only one of command and commandFile is allowed, not both''
                  else if CommandFile check \<noteq> []
                    then (case os_Stat env (CommandFile check) of
                            Some err \<Rightarrow> Some (''ssh check: command file: '' @ err)
                          | None \<Rightarrow> None)
                  else None)))"


text \<open>\<open>Pinger.Validate\<close>: the generic part of a pinger. The check is raw JSON here.\<close>

definition Pinger_Validate :: "Env \<Rightarrow> Pinger_conf \<Rightarrow> error" where
  "Pinger_Validate env pinger =
     (if Name pinger = [] then Some ''pinger: missing name''
      else if \<not> validPingerName env (Name pinger)
        then Some (''pinger: illegal name: '' @ [CHR 0x27] @ Name pinger @ [CHR 0x27]
                   @ '' (must be of form '' @ [CHR 0x27] @ ''^[a-zA-Z0-9_'' @ [CHR 0x5C]
                   @ ''-'' @ [CHR 0x5C] @ ''.]+$'' @ [CHR 0x27] @ '')'')
      else if Type pinger = []
        then Some (''pinger '' @ [CHR 0x27] @ Name pinger @ [CHR 0x27] @ '': missing type'')
      else if length (Check pinger) = 0 \<or> Check pinger = ''null''
        then Some (''pinger '' @ [CHR 0x27] @ Name pinger @ [CHR 0x27] @ '': missing check'')
      else
        (case Schedule pinger of
           Some schedule \<Rightarrow>
             (case Schedule_Validate schedule of
                Some err \<Rightarrow>
                  Some (''pinger '' @ [CHR 0x27] @ Name pinger @ [CHR 0x27] @ '': '' @ err)
              | None \<Rightarrow> None)
         | None \<Rightarrow> None))"

definition EmailAuth_Validate :: "Env \<Rightarrow> EmailAuth \<Rightarrow> error" where
  "EmailAuth_Validate env auth =
     (if \<not> usernameRegexp env (Username_EmailAuth auth)
        then Some (''auth: illegal username: '' @ [CHR 0x27] @ Username_EmailAuth auth @ [CHR 0x27])
      else if length (Password_EmailAuth auth) = 0 then Some ''auth: no password given''
      else None)"

text \<open>The loop of \<open>Email.Validate\<close> over the receivers; its message names the sender, as
  the source does.\<close>

fun Email_Validate_To :: "Env \<Rightarrow> Email \<Rightarrow> string list \<Rightarrow> error" where
  "Email_Validate_To env email [] = None"
| "Email_Validate_To env email (receiver # rest) =
     (case mail_ParseAddress env receiver of
        Some err \<Rightarrow>
          Some (''email: illegal To address: '' @ [CHR 0x27] @ From email @ [CHR 0x27]
                @ '': '' @ err)
      | None \<Rightarrow> Email_Validate_To env email rest)"

definition Email_Validate :: "Env \<Rightarrow> Email \<Rightarrow> error" where
  "Email_Validate env email =
     (if \<not> ValidHostOrIpAddr env (SMTPHost email)
        then Some (''email: illegal smtpHost: '' @ [CHR 0x27] @ SMTPHost email @ [CHR 0x27])
      else if \<not> ValidPort (SMTPPort email)
        then Some (''email: illegal smtpPort: '' @ [CHR 0x27] @ itoa (SMTPPort email) @ [CHR 0x27])
      else
        (case (case Auth_Email email of
                 Some auth \<Rightarrow> EmailAuth_Validate env auth
               | None \<Rightarrow> None) of
           Some err \<Rightarrow> Some (''email: '' @ err)
         | None \<Rightarrow>
             (case mail_ParseAddress env (From email) of
                Some err \<Rightarrow>
                  Some (''email: illegal From address: '' @ [CHR 0x27] @ From email
                        @ [CHR 0x27] @ '': '' @ err)
              | None \<Rightarrow> Email_Validate_To env email (To email))))"

definition Alerter_Validate :: "Env \<Rightarrow> Alerter_conf \<Rightarrow> error" where
  "Alerter_Validate env alerter =
     (if \<not> ValidHostOrIpAddr env (AdvertisedIP alerter)
        then Some (''alerter: advertisedIP: illegal IP/hostname: '' @ [CHR 0x27]
                   @ AdvertisedIP alerter @ [CHR 0x27])
      else if \<not> ValidPort (AdvertisedPort alerter)
        then Some (''alerter: advertisedPort: illegal port: '' @ itoa (AdvertisedPort alerter))
      else
        (case Email alerter of
           Some email \<Rightarrow>
             (case Email_Validate env email of
                Some err \<Rightarrow> Some (''alerter: '' @ err)
              | None \<Rightarrow> None)
         | None \<Rightarrow> None))"

text \<open>The loop of \<open>Engine.Validate\<close> over the pingers; \<open>takenNames\<close> holds the names seen so
  far.\<close>

fun Engine_Validate_loop :: "Env \<Rightarrow> Pinger_conf list \<Rightarrow> string set \<Rightarrow> error" where
  "Engine_Validate_loop env [] takenNames = None"
| "Engine_Validate_loop env (pinger # rest) takenNames =
     (if Name pinger \<in> takenNames
        then Some (''engine: pinger name '' @ [CHR 0x27] @ Name pinger @ [CHR 0x27]
                   @ '' is used multiple times -- pinger names must be unique'')
      else
        (case Pinger_Validate env pinger of
           Some err \<Rightarrow> Some (''engine: '' @ err)
         | None \<Rightarrow> Engine_Validate_loop env rest (insert (Name pinger) takenNames)))"

text \<open>\<open>Engine.Validate\<close>, which \<open>main\<close> calls before \<open>NewEngine\<close>. An engine without an
  alerter is valid.\<close>

definition Engine_Validate :: "Env \<Rightarrow> Engine_conf \<Rightarrow> error" where
  "Engine_Validate env engine =
     (case (case DefaultSchedule engine of
              Some schedule \<Rightarrow> Schedule_Validate schedule
            | None \<Rightarrow> None) of
        Some err \<Rightarrow> Some (''engine: '' @ err)
      | None \<Rightarrow>
          (case Engine_Validate_loop env (Pingers engine) {} of
             Some err \<Rightarrow> Some err
           | None \<Rightarrow>
               (case Alerter engine of
                  Some alerter \<Rightarrow>
                    (case Alerter_Validate env alerter of
                       Some err \<Rightarrow> Some (''engine: '' @ err)
                     | None \<Rightarrow> None)
                | None \<Rightarrow> None)))"


section \<open>Package ping: the HTTP pinger\<close>

record HTTPResponse =
  StatusCode :: int
  Body :: string

text \<open>What one \<open>Ping\<close> of the HTTP pinger meets: the error of \<open>http.NewRequest\<close> on the
  URL, and what \<open>client.Do\<close> returns. \<open>Body\<close> is what \<open>ioutil.ReadAll\<close> reads; the
  source drops the error of \<open>ReadAll\<close>.\<close>

record HTTPWorld =
  http_NewRequest :: "string \<Rightarrow> error"
  client_Do :: "string + HTTPResponse"

text \<open>\<open>HTTPPinger.Ping\<close>. The timeout and the TLS settings of the check configure the
  client, whose answer is \<open>client_Do\<close>.\<close>

definition HTTPPinger_Ping :: "HTTPCheck \<Rightarrow> HTTPWorld \<Rightarrow> Result \<times> Output" where
  "HTTPPinger_Ping check w =
     (case http_NewRequest w (URL check) of
        Some err \<Rightarrow> (\<lparr>Status = StatusNOK, Error = Some (''ping failed: '' @ err)\<rparr>, None)
      | None \<Rightarrow>
          (case client_Do w of
             Inl err \<Rightarrow> (\<lparr>Status = StatusNOK, Error = Some (''ping failed: '' @ err)\<rparr>, None)
           | Inr response \<Rightarrow>
               (let expectedCode = Expect_StatusCode check in
                if expectedCode \<noteq> StatusCode response
                  then (\<lparr>Status = StatusNOK,
                         Error = Some (''expected status code ('' @ itoa expectedCode
                                       @ '') differs from actual ('' @ itoa (StatusCode response) @ '')'')\<rparr>,
                        None)
                else (\<lparr>Status = StatusOK, Error = None\<rparr>, Some (Body response)))))"

definition NewHTTPPinger :: "Env \<Rightarrow> Pinger_conf \<Rightarrow> (string + HTTPCheck) go" where
  "NewHTTPPinger env httpConfig =
     (case json_Unmarshal env (json_HTTPCheck env (Check httpConfig)) of
        Panics \<Rightarrow> Panics
      | Returns (Inl err) \<Rightarrow> Returns (Inl (''http pinger: illegal check: '' @ err))
      | Returns (Inr httpCheck) \<Rightarrow>
          (case HTTPCheck_Validate env httpCheck of
             Some err \<Rightarrow> Returns (Inl (''http pinger: invalid check: '' @ err))
           | None \<Rightarrow> Returns (Inr httpCheck)))"


section \<open>Package ping: the SSH pinger\<close>

record SSHClientConfig =
  Username_SSHClientConfig :: string
  Password_SSHClientConfig :: string
  KeyPath :: string
  AgentForwarding :: bool
  Host_SSHClientConfig :: string
  Port_SSHClientConfig :: int
  Timeout_SSHClientConfig :: Duration

record CommandResult =
  ExitStatus :: int
  Output :: Output

text \<open>The error of \<open>session.Run\<close> when it is not \<open>nil\<close>: an \<open>*ssh.ExitError\<close> with its
  exit status, or any other error.\<close>

datatype RunError = ExitError int | OtherError string

text \<open>What one \<open>Run\<close> of the SSH client meets: the error of \<open>connect\<close> (authentication
  set-up, dial, session), the error of \<open>session.Run\<close> and what the command wrote.\<close>

record SSHWorld =
  connect :: error
  session_Run :: "RunError option"
  written :: string

text \<open>\<open>SSHClient.Run\<close>. The output buffer collects what the session writes, whether the
  command succeeds or not.\<close>

definition SSHClient_Run :: "SSHClientConfig \<Rightarrow> string \<Rightarrow> SSHWorld \<Rightarrow> string + CommandResult" where
  "SSHClient_Run client command w =
     (case connect w of
        Some err \<Rightarrow> Inl (''failed to connect: '' @ err)
      | None \<Rightarrow>
          (let result = \<lparr>ExitStatus = 0, Output = Some (written w)\<rparr> in
           Inr (case session_Run w of
                  None \<Rightarrow> result
                | Some (ExitError status) \<Rightarrow> result\<lparr>ExitStatus := status\<rparr>
                | Some (OtherError _) \<Rightarrow> result\<lparr>ExitStatus := - 1\<rparr>)))"

record SSHPinger =
  Client :: SSHClientConfig
  Command_SSHPinger :: string
  ExpectedExitCode :: int

definition SSHPinger_Ping :: "SSHPinger \<Rightarrow> SSHWorld \<Rightarrow> Result \<times> Output" where
  "SSHPinger_Ping sshPinger w =
     (case SSHClient_Run (Client sshPinger) (Command_SSHPinger sshPinger) w of
        Inl err \<Rightarrow> (\<lparr>Status = StatusNOK, Error = Some (''ping failed: '' @ err)\<rparr>, None)
      | Inr response \<Rightarrow>
          if ExpectedExitCode sshPinger \<noteq> ExitStatus response
            then (\<lparr>Status = StatusNOK,
                   Error = Some (''expected exit code ('' @ itoa (ExpectedExitCode sshPinger)
                                 @ '') differs from actual ('' @ itoa (ExitStatus response) @ '')'')\<rparr>,
                  Output response)
          else (\<lparr>Status = StatusOK, Error = None\<rparr>, Output response))"

definition loadCommand :: "Env \<Rightarrow> SSHCheck \<Rightarrow> string + string" where
  "loadCommand env sshCheck =
     (if Command sshCheck \<noteq> [] then Inr (Command sshCheck)
      else if CommandFile sshCheck \<noteq> [] then
        (case ioutil_ReadFile env (CommandFile sshCheck) of
           Inl err \<Rightarrow> Inl err
         | Inr bytes \<Rightarrow> Inr bytes)
      else Inl ''neither Command nor CommandFile specified'')"

definition NewSSHClientConfig :: "SSHCheck \<Rightarrow> SSHClientConfig" where
  "NewSSHClientConfig sshCheck =
     \<lparr>Username_SSHClientConfig = Username_SSHAuth (Auth sshCheck),
      Password_SSHClientConfig =
        (case Password_SSHAuth (Auth sshCheck) of Some p \<Rightarrow> p | None \<Rightarrow> []),
      KeyPath = (case Key (Auth sshCheck) of Some k \<Rightarrow> k | None \<Rightarrow> []),
      AgentForwarding = Agent (Auth sshCheck),
      Host_SSHClientConfig = Host sshCheck,
      Port_SSHClientConfig = Port sshCheck,
      Timeout_SSHClientConfig = 0\<rparr>"

definition NewSSHClient :: "Env \<Rightarrow> SSHClientConfig \<Rightarrow> string + SSHClientConfig" where
  "NewSSHClient env clientConfig =
     (if Username_SSHClientConfig clientConfig = [] then Inl ''no Username given''
      else if Password_SSHClientConfig clientConfig = [] \<and> KeyPath clientConfig = []
              \<and> \<not> AgentForwarding clientConfig
        then Inl ''no auth mechanism specified (must use one or more of Password, KeyPath and AgentForwarding''
      else if \<not> ValidHostOrIpAddr env (Host_SSHClientConfig clientConfig)
        then Inl (''invalid host/IP address: '' @ [CHR 0x27] @ Host_SSHClientConfig clientConfig @ [CHR 0x27])
      else if \<not> ValidPort (Port_SSHClientConfig clientConfig)
        then Inl (''invalid port: '' @ itoa (Port_SSHClientConfig clientConfig))
      else Inr clientConfig)"

definition NewSSHPinger :: "Env \<Rightarrow> Pinger_conf \<Rightarrow> (string + SSHPinger) go" where
  "NewSSHPinger env pingerConfig =
     (case json_Unmarshal env (json_SSHCheck env (Check pingerConfig)) of
        Panics \<Rightarrow> Panics
      | Returns (Inl err) \<Rightarrow> Returns (Inl (''ssh pinger: illegal check: '' @ err))
      | Returns (Inr sshCheck) \<Rightarrow>
          Returns
            (case SSHCheck_Validate env sshCheck of
               Some err \<Rightarrow> Inl (''ssh pinger: invalid check: '' @ err)
             | None \<Rightarrow>
                 (case loadCommand env sshCheck of
                    Inl err \<Rightarrow> Inl (''ssh pinger: illegal command: '' @ err)
                  | Inr command \<Rightarrow>
                      (case NewSSHClient env (NewSSHClientConfig sshCheck) of
                         Inl err \<Rightarrow> Inl (''ssh pinger: failed to set up ssh client: '' @ err)
                       | Inr sshClient \<Rightarrow>
                           Inr \<lparr>Client = sshClient, Command_SSHPinger = command,
                                ExpectedExitCode = Expect_ExitCode sshCheck\<rparr>))))"

text \<open>The two implementations of the \<open>Pinger\<close> interface.\<close>

datatype Pinger = HTTP HTTPCheck | SSH SSHPinger


section \<open>Package engine: the pinger task\<close>

record PingerTaskStatus =
  LatestResult :: Result
  Consecutive :: "64 word"
  LatestOK :: "Time option"
  LatestNOK :: "Time option"

record StatusUpdate =
  Name_StatusUpdate :: string
  Status_StatusUpdate :: PingerTaskStatus

text \<open>The \<open>WaitGroup\<close> and the status channel of the task are left out: what the task
  sends on the channel is returned by \<open>updateStatus\<close>.\<close>

record PingerTask =
  Name_PingerTask :: string
  Type_PingerTask :: string
  Pinger_PingerTask :: Pinger
  Schedule_PingerTask :: Schedule
  Status_PingerTask :: PingerTaskStatus
  Output_PingerTask :: Output

text \<open>The zero value of \<open>PingerTaskStatus\<close>, which a struct literal that does not name
  \<open>Status\<close> leaves in the field.\<close>

definition zero_PingerTaskStatus :: PingerTaskStatus where
  "zero_PingerTaskStatus =
     \<lparr>LatestResult = zero_Result, Consecutive = 0, LatestOK = None, LatestNOK = None\<rparr>"

text \<open>The first statement of \<open>Start\<close>, before the loop.\<close>

definition Start_init :: "PingerTask \<Rightarrow> PingerTask" where
  "Start_init task =
     task\<lparr>Status_PingerTask :=
            \<lparr>LatestResult = \<lparr>Status = StatusUnknown, Error = Some ''no ping performed yet''\<rparr>,
             Consecutive = 1, LatestOK = None, LatestNOK = None\<rparr>\<rparr>"

text \<open>
  What \<open>ping\<close> does to the world, in order: a \<open>Ping\<close> call on the task's pinger, or a
  \<open>time.Sleep\<close> with its argument. The pinger is given by what each of its calls
  returns: \<open>pinger i\<close> is the answer to call number \<open>i\<close>, counted from 0, so the next
  call is answered by \<open>pinger (pings tr)\<close>.
\<close>

datatype event = Ping | Sleep Duration

type_synonym trace = "event list"

definition pings :: "trace \<Rightarrow> nat" where
  "pings tr = length (filter (\<lambda>e. e = Ping) tr)"

type_synonym PingFun = "nat \<Rightarrow> Result \<times> Output"

text \<open>
  The \<open>for\<close> loop of \<open>ping\<close>, from the test \<open>attempt <= maxAttempts\<close> on. \<open>res\<close> holds the
  named results \<open>result\<close> and \<open>output\<close>. The loop has no bound of its own: with
  \<open>maxAttempts\<close> at the largest \<open>int\<close>, \<open>attempt++\<close> wraps around and the test never
  fails, so the function is partial and \<open>None\<close> stands for a loop that does not return.
\<close>

partial_function (option) ping_loop ::
  "Retries \<Rightarrow> PingFun \<Rightarrow> 64 word \<Rightarrow> Duration \<Rightarrow> Result \<times> Output \<Rightarrow> trace
     \<Rightarrow> ((Result \<times> Output) \<times> trace) option"
where
  "ping_loop retries pinger attempt attemptDelay res tr =
     (if attempt \<le>s Attempts retries then
        (let res' = pinger (pings tr);
             tr1 = tr @ [Ping]
         in if Status (fst res') = StatusOK then Some (res', tr1)
            else
              (let attemptDelay' =
                     (if ExponentialBackoff retries then attemptDelay * 2 else attemptDelay);
                   tr2 = (if attempt <s Attempts retries
                          then tr1 @ [Sleep attemptDelay'] else tr1)
               in ping_loop retries pinger (attempt + 1) attemptDelay' res' tr2))
      else Some (res, tr))"

declare ping_loop.simps [code]

text \<open>\<open>ping\<close>, on the \<open>Retries\<close> that \<open>task.Schedule.Retries\<close> points to. \<open>Start\<close> has
  dereferenced that pointer before it calls \<open>ping\<close>.\<close>

definition ping :: "Retries \<Rightarrow> PingFun \<Rightarrow> trace \<Rightarrow> ((Result \<times> Output) \<times> trace) option" where
  "ping retries pinger tr =
     ping_loop retries pinger 1 (Delay retries) (zero_Result, None) tr"

text \<open>\<open>updateStatus\<close>; \<open>now\<close> is what \<open>time.Now().UTC()\<close> returns. The second
  component is the \<open>StatusUpdate\<close> sent on the status channel.\<close>

definition updateStatus :: "PingerTask \<Rightarrow> Result \<Rightarrow> Output \<Rightarrow> Time \<Rightarrow> PingerTask \<times> StatusUpdate" where
  "updateStatus task result output now =
     (let st = Status_PingerTask task;
          st1 = (if Status result = Status (LatestResult st)
                 then st\<lparr>Consecutive := Consecutive st + 1\<rparr>
                 else st\<lparr>Consecutive := 1\<rparr>);
          st2 = (case Status result of
                   StatusOK \<Rightarrow> st1\<lparr>LatestOK := Some now\<rparr>
                 | StatusNOK \<Rightarrow> st1\<lparr>LatestNOK := Some now\<rparr>
                 | StatusUnknown \<Rightarrow> st1);
          st3 = st2\<lparr>LatestResult := result\<rparr>;
          task' = task\<lparr>Status_PingerTask := st3, Output_PingerTask := output\<rparr>
      in (task', \<lparr>Name_StatusUpdate = Name_PingerTask task',
                  Status_StatusUpdate = Status_PingerTask task'\<rparr>))"


section \<open>Package engine: the dispatcher\<close>

text \<open>The only \<open>Alerter\<close> of the source is the \<open>EmailAlerter\<close>, which holds its
  configuration.\<close>

record Dispatcher =
  alerters :: "Email list"
  alertHistory :: "string \<rightharpoonup> Time"
  reminderDelay :: Duration
  advertisedBaseURL :: string

definition NewEmailAlerter :: "Email option \<Rightarrow> string + Email" where
  "NewEmailAlerter emailConfig =
     (case emailConfig of
        None \<Rightarrow> Inl ''cannot create email alerter: config is nil''
      | Some conf \<Rightarrow> Inr conf)"

text \<open>\<open>NewDispatcher\<close> reads \<open>alertsConfig.Email\<close> first: on a \<open>nil\<close> configuration
  that is a nil dereference.\<close>

definition NewDispatcher :: "Alerter_conf option \<Rightarrow> (string + Dispatcher) go" where
  "NewDispatcher alertsConfig =
     (case alertsConfig of
        None \<Rightarrow> Panics
      | Some conf \<Rightarrow>
          (case (case Email conf of
                   Some email \<Rightarrow>
                     (case NewEmailAlerter (Some email) of
                        Inl err \<Rightarrow> Inl (''dispatcher: failed to initialize email alerter: '' @ err)
                      | Inr alerter \<Rightarrow> Inr [alerter])
                 | None \<Rightarrow> Inr []) of
             Inl err \<Rightarrow> Returns (Inl err)
           | Inr as \<Rightarrow>
               Returns (Inr \<lparr>alerters = as, alertHistory = Map.empty,
                             reminderDelay = ReminderDelay conf,
                             advertisedBaseURL =
                               ''https://'' @ AdvertisedIP conf @ '':'' @ itoa (AdvertisedPort conf)\<rparr>)))"

text \<open>\<open>Time.Sub\<close> of the Go library: the difference, held at the largest or the smallest
  \<open>Duration\<close> when it does not fit. \<open>time.Since t\<close> is \<open>time.Now().Sub(t)\<close>.\<close>

definition maxDuration :: int where
  "maxDuration = 2 ^ 63 - 1"

definition minDuration :: int where
  "minDuration = - (2 ^ 63)"

definition Sub :: "Time \<Rightarrow> Time \<Rightarrow> Duration" where
  "Sub t u =
     (let d = t - u in
      if d > maxDuration then word_of_int maxDuration
      else if d < minDuration then word_of_int minDuration
      else word_of_int d)"

definition Since :: "Time \<Rightarrow> Time \<Rightarrow> Duration" where
  "Since now t = Sub now t"

definition statusChanged :: "PingerTaskStatus \<Rightarrow> bool" where
  "statusChanged status \<longleftrightarrow>
     Consecutive status = 1 \<and> Status (LatestResult status) \<noteq> StatusUnknown"

text \<open>\<open>shouldPublish\<close>; \<open>now\<close> is the clock that \<open>time.Since\<close> reads.\<close>

definition shouldPublish :: "Dispatcher \<Rightarrow> StatusUpdate \<Rightarrow> Time \<Rightarrow> bool" where
  "shouldPublish dispatcher update now =
     (let pingerName = Name_StatusUpdate update in
      if statusChanged (Status_StatusUpdate update) then True
      else if Status (LatestResult (Status_StatusUpdate update)) = StatusNOK then
        (case alertHistory dispatcher pingerName of
           Some lastAlert \<Rightarrow>
             (let timeUntilReminder = reminderDelay dispatcher - Since now lastAlert
              in timeUntilReminder \<le>s 0)
         | None \<Rightarrow> False)
      else False)"


section \<open>Package engine: the engine\<close>

record Engine =
  Pingers_Engine :: "string \<rightharpoonup> PingerTask"
  DefaultSchedule_Engine :: Schedule

definition standardDefaultSchedule :: Schedule where
  "standardDefaultSchedule =
     \<lparr>Interval = Some (10 * 60 * 1000000000),
      Retries = Some \<lparr>Attempts = 3, Delay = 3 * 1000000000, ExponentialBackoff = False\<rparr>\<rparr>"

text \<open>The default schedule of the engine: that of the configuration, or the standard
  one.\<close>

definition defaultSchedule_of :: "Engine_conf \<Rightarrow> Schedule" where
  "defaultSchedule_of engineConf =
     (case DefaultSchedule engineConf of Some s \<Rightarrow> s | None \<Rightarrow> standardDefaultSchedule)"

text \<open>The \<open>switch\<close> on \<open>pingerConf.Type\<close> in the loop of \<open>NewEngine\<close>.\<close>

definition newPinger :: "Env \<Rightarrow> Pinger_conf \<Rightarrow> (string + Pinger) go" where
  "newPinger env pingerConf =
     (if Type pingerConf = ''ssh'' then
        (case NewSSHPinger env pingerConf of
           Panics \<Rightarrow> Panics
         | Returns (Inl err) \<Rightarrow> Returns (Inl err)
         | Returns (Inr p) \<Rightarrow> Returns (Inr (SSH p)))
      else if Type pingerConf = ''http'' then
        (case NewHTTPPinger env pingerConf of
           Panics \<Rightarrow> Panics
         | Returns (Inl err) \<Rightarrow> Returns (Inl err)
         | Returns (Inr p) \<Rightarrow> Returns (Inr (HTTP p)))
      else Returns (Inl (''unknown pinger type: '' @ Type pingerConf)))"

text \<open>The schedule of a pinger: its own, or the default of the engine.\<close>

definition pingerSchedule :: "Schedule \<Rightarrow> Pinger_conf \<Rightarrow> Schedule" where
  "pingerSchedule dflt pingerConf =
     (case Schedule pingerConf of Some s \<Rightarrow> s | None \<Rightarrow> dflt)"

text \<open>The struct literal of \<open>NewEngine\<close>: \<open>Status\<close> and \<open>Output\<close> are not named, so they
  hold their zero values.\<close>

definition newPingerTask :: "Pinger_conf \<Rightarrow> Pinger \<Rightarrow> Schedule \<Rightarrow> PingerTask" where
  "newPingerTask pingerConf pinger schedule =
     \<lparr>Name_PingerTask = Name pingerConf, Type_PingerTask = Type pingerConf,
      Pinger_PingerTask = pinger, Schedule_PingerTask = schedule,
      Status_PingerTask = zero_PingerTaskStatus, Output_PingerTask = None\<rparr>"

text \<open>The loop over \<open>engineConf.Pingers\<close>, which returns at the first pinger that fails
  to instantiate, and does not return if instantiating a pinger panics.\<close>

fun NewEngine_loop ::
  "Env \<Rightarrow> Schedule \<Rightarrow> Pinger_conf list \<Rightarrow> (string \<rightharpoonup> PingerTask)
     \<Rightarrow> (string + (string \<rightharpoonup> PingerTask)) go"
where
  "NewEngine_loop env dflt [] pingers = Returns (Inr pingers)"
| "NewEngine_loop env dflt (pingerConf # rest) pingers =
     (case newPinger env pingerConf of
        Panics \<Rightarrow> Panics
      | Returns (Inl err) \<Rightarrow> Returns (Inl (''failed to instantiate pinger: '' @ err))
      | Returns (Inr pinger) \<Rightarrow>
          NewEngine_loop env dflt rest
            (pingers(Name pingerConf \<mapsto>
               newPingerTask pingerConf pinger (pingerSchedule dflt pingerConf))))"

text \<open>\<open>NewEngine\<close> returns the engine and the error; the third component is the
  dispatcher that it starts with \<open>go dispatcher.Start()\<close>. The source does not use
  its second parameter.\<close>

definition NewEngine ::
  "Env \<Rightarrow> Engine_conf \<Rightarrow> string \<Rightarrow> (Engine option \<times> error \<times> Dispatcher option) go"
where
  "NewEngine env engineConf advertisedBaseURL' =
     (let dflt = defaultSchedule_of engineConf
      in case NewEngine_loop env dflt (Pingers engineConf) Map.empty of
           Panics \<Rightarrow> Panics
         | Returns (Inl err) \<Rightarrow> Returns (None, Some err, None)
         | Returns (Inr pingers) \<Rightarrow>
             (case NewDispatcher (Alerter engineConf) of
                Panics \<Rightarrow> Panics
              | Returns (Inl err) \<Rightarrow>
                  Returns (None, Some (''failed to instantiate alert dispatcher: '' @ err), None)
              | Returns (Inr dispatcher) \<Rightarrow>
                  Returns (Some \<lparr>Pingers_Engine = pingers, DefaultSchedule_Engine = dflt\<rparr>,
                           None, Some dispatcher)))"

section \<open>Statements about the retry loop\<close>

text \<open>The delay after \<open>j\<close> passes through the doubling of the loop.\<close>

definition delay_at :: "Retries \<Rightarrow> Duration \<Rightarrow> nat \<Rightarrow> Duration" where
  "delay_at retries d j = (if ExponentialBackoff retries then d * 2 ^ j else d)"

text \<open>The events of \<open>n\<close> attempts with the wait \<open>wait k\<close> before attempt \<open>k\<close>, for \<open>k\<close> from 2
  to \<open>n\<close>: each attempt but the last is followed by the wait before the next, and
  nothing follows the last.\<close>

definition retry_log :: "(nat \<Rightarrow> Duration) \<Rightarrow> nat \<Rightarrow> event list" where
  "retry_log wait n =
     (if n = 0 then []
      else concat (map (\<lambda>k. [Ping, Sleep (wait (Suc k))]) [1..<n]) @ [Ping])"

text \<open>The events of \<open>i\<close> failed attempts, each followed by its wait, and one more attempt,
  when the loop is entered with the delay \<open>d\<close>.\<close>

definition loop_log :: "Retries \<Rightarrow> Duration \<Rightarrow> nat \<Rightarrow> event list" where
  "loop_log r d i = concat (map (\<lambda>j. [Ping, Sleep (delay_at r d (Suc j))]) [0..<i]) @ [Ping]"

text \<open>The wait before attempt \<open>k\<close> in the words of the specification:
  \<open>retryDelay \<times> 2^(k-2)\<close>.\<close>

definition wait_spec :: "Duration \<Rightarrow> nat \<Rightarrow> Duration" where
  "wait_spec d k = d * 2 ^ (k - 2)"


section \<open>Statements about the dispatcher\<close>

text \<open>The reminder rule in the words of the specification: the status is NOK, and no
  dispatch is recorded for the endpoint or \<open>now - alertHistory[endpoint] \<ge> reminderDelay\<close>.\<close>

definition reminder_rule_spec :: "Dispatcher \<Rightarrow> StatusUpdate \<Rightarrow> Time \<Rightarrow> bool" where
  "reminder_rule_spec dispatcher update now \<longleftrightarrow>
     Status (LatestResult (Status_StatusUpdate update)) = StatusNOK \<and>
     (case alertHistory dispatcher (Name_StatusUpdate update) of
        None \<Rightarrow> True
      | Some lastAlert \<Rightarrow> now - lastAlert \<ge> sint (reminderDelay dispatcher))"



section \<open>Example inputs\<close>

text \<open>Schedules: 3 attempts with a delay of 1s and exponential backoff; 0 attempts;
  1 attempt.\<close>

definition retries_1s_backoff :: Retries where
  "retries_1s_backoff = \<lparr>Attempts = 3, Delay = 1000000000, ExponentialBackoff = True\<rparr>"



text \<open>Pingers: one that always fails, one that always succeeds, one that fails once.\<close>

definition result_NOK :: "Result \<times> Output" where
  "result_NOK = (\<lparr>Status = StatusNOK, Error = Some ''ping failed: timeout''\<rparr>, None)"

definition result_OK :: "Result \<times> Output" where
  "result_OK = (\<lparr>Status = StatusOK, Error = None\<rparr>, Some ''pong'')"

definition always_NOK :: PingFun where
  "always_NOK = (\<lambda>_. result_NOK)"


definition NOK_then_OK :: PingFun where
  "NOK_then_OK = (\<lambda>i. if i = 0 then result_NOK else result_OK)"

text \<open>Dispatchers with a reminder delay of 10s, and the status update of a pinger
  \<open>web\<close>.\<close>

definition dispatcher_no_history :: Dispatcher where
  "dispatcher_no_history =
     \<lparr>alerters = [], alertHistory = Map.empty, reminderDelay = 10000000000,
      advertisedBaseURL = ''https://watcher:8443''\<rparr>"

definition dispatcher_alerted_at_0 :: Dispatcher where
  "dispatcher_alerted_at_0 =
     \<lparr>alerters = [], alertHistory = [''web'' \<mapsto> 0], reminderDelay = 10000000000,
      advertisedBaseURL = ''https://watcher:8443''\<rparr>"


definition update_web :: "Status \<Rightarrow> 64 word \<Rightarrow> StatusUpdate" where
  "update_web s c =
     \<lparr>Name_StatusUpdate = ''web'',
      Status_StatusUpdate =
        \<lparr>LatestResult = \<lparr>Status = s, Error = (if s = StatusOK then None else Some ''ping failed'')\<rparr>,
         Consecutive = c, LatestOK = None, LatestNOK = None\<rparr>\<rparr>"

text \<open>A Go library in which the JSON of an HTTP check is its URL, with the expected
  status code 200; the one check \<open>check_timeout_5\<close> has a \<open>timeout\<close> besides, whose value
  is the one byte \<open>5\<close>. No SSH check decodes, no duration parses and no file exists.\<close>

definition check_timeout_5 :: string where
  "check_timeout_5 = ''{url: https://t.example, expect: {statusCode: 200}, timeout: 5}''"

definition env_example :: Env where
  "env_example =
     \<lparr>json_HTTPCheck =
        (\<lambda>raw. if raw = ''null'' then Decode_error ''unexpected end of JSON input''
               else if raw = check_timeout_5 then
                 Decode_Duration ''5''
                   (\<lambda>d. Decoded \<lparr>URL = ''https://t.example'', VerifyCert = True,
                                   BasicAuth = None, Expect_StatusCode = 200,
                                   Timeout = Some d\<rparr>)
               else Decoded \<lparr>URL = raw, VerifyCert = True, BasicAuth = None,
                              Expect_StatusCode = 200, Timeout = None\<rparr>),
      json_SSHCheck = (\<lambda>raw. Decode_error ''unexpected end of JSON input''),
      time_ParseDuration = (\<lambda>_. Inl ''time: invalid duration''),
      mail_ParseAddress = (\<lambda>_. None),
      validPingerName = (\<lambda>_. True),
      url_Parse = (\<lambda>_. None),
      os_Stat = (\<lambda>_. Some ''no such file or directory''),
      ioutil_ReadFile = (\<lambda>_. Inl ''no such file or directory''),
      ipv4AddrRegexp = (\<lambda>_. False),
      hostnameRegexp = (\<lambda>_. True),
      usernameRegexp = (\<lambda>_. True),
      strings_TrimSpace = (\<lambda>s. s)\<rparr>"

text \<open>Endpoints: two HTTP endpoints \<open>a\<close> and \<open>b\<close>, a second endpoint of the name \<open>a\<close>, an
  endpoint of an unknown type, and an HTTP endpoint with the one-byte timeout.\<close>

definition pinger_a :: Pinger_conf where
  "pinger_a = \<lparr>Name = ''a'', Type = ''http'', Check = ''https://a.example'', Schedule = None\<rparr>"

definition pinger_a_again :: Pinger_conf where
  "pinger_a_again = \<lparr>Name = ''a'', Type = ''http'', Check = ''https://other.example'', Schedule = None\<rparr>"

definition pinger_b :: Pinger_conf where
  "pinger_b = \<lparr>Name = ''b'', Type = ''http'', Check = ''https://b.example'', Schedule = None\<rparr>"

definition pinger_ftp :: Pinger_conf where
  "pinger_ftp = \<lparr>Name = ''c'', Type = ''ftp'', Check = ''ftp://c.example'', Schedule = None\<rparr>"

definition pinger_timeout_5 :: Pinger_conf where
  "pinger_timeout_5 = \<lparr>Name = ''t'', Type = ''http'', Check = check_timeout_5, Schedule = None\<rparr>"

definition alerter_example :: Alerter_conf where
  "alerter_example =
     \<lparr>AdvertisedIP = ''watcher'', AdvertisedPort = 8443, ReminderDelay = 10000000000,
      Email = None\<rparr>"

definition conf_a_b :: Engine_conf where
  "conf_a_b = \<lparr>DefaultSchedule = None, Pingers = [pinger_a, pinger_b],
               Alerter = Some alerter_example\<rparr>"

definition conf_a_ftp_b :: Engine_conf where
  "conf_a_ftp_b = \<lparr>DefaultSchedule = None, Pingers = [pinger_a, pinger_ftp, pinger_b],
                   Alerter = Some alerter_example\<rparr>"

definition conf_a_twice :: Engine_conf where
  "conf_a_twice = \<lparr>DefaultSchedule = None, Pingers = [pinger_a, pinger_a_again],
                Alerter = Some alerter_example\<rparr>"

definition conf_no_alerter :: Engine_conf where
  "conf_no_alerter = \<lparr>DefaultSchedule = None, Pingers = [pinger_a], Alerter = None\<rparr>"

definition conf_timeout_5 :: Engine_conf where
  "conf_timeout_5 = \<lparr>DefaultSchedule = None, Pingers = [pinger_a, pinger_timeout_5],
                     Alerter = Some alerter_example\<rparr>"

text \<open>A started task, and the same task after three pings that were OK.\<close>

definition task_example :: PingerTask where
  "task_example =
     Start_init
       (newPingerTask pinger_a
          (HTTP \<lparr>URL = ''https://a.example'', VerifyCert = True, BasicAuth = None,
                 Expect_StatusCode = 200, Timeout = None\<rparr>)
          standardDefaultSchedule)"

definition task_OK_3 :: PingerTask where
  "task_OK_3 =
     task_example\<lparr>Status_PingerTask :=
       \<lparr>LatestResult = \<lparr>Status = StatusOK, Error = None\<rparr>, Consecutive = 3,
        LatestOK = Some 5, LatestNOK = None\<rparr>\<rparr>"

section \<open>The retry loop\<close>

text \<open>Counting the calls in a trace.\<close>

lemma pings_simps [simp]:
  "pings [] = 0" "pings (tr @ [Ping]) = Suc (pings tr)" "pings (tr @ [Sleep d]) = pings tr"
  "pings (tr @ [Ping, Sleep d]) = Suc (pings tr)"
  by (simp_all add: pings_def)

lemma pings_append: "pings (tr @ tr') = pings tr + pings tr'"
  by (simp add: pings_def)

lemma delay_at_step:
  "delay_at r (if ExponentialBackoff r then d * 2 else d) j = delay_at r d (Suc j)"
  by (simp add: delay_at_def)

lemma delay_at_Suc_0: "delay_at r d (Suc 0) = (if ExponentialBackoff r then d * 2 else d)"
  by (simp add: delay_at_def)

lemma map_upt_Suc_shift: "map f [0..<Suc i] = f 0 # map (\<lambda>j. f (Suc j)) [0..<i]"
  by (simp add: upt_conv_Cons map_Suc_upt [symmetric] del: upt_Suc)

text \<open>\<open>attempt++\<close> does not wrap around below the largest \<open>int\<close>.\<close>

lemma sint_succ_le:
  fixes a b :: "64 word"
  assumes "a \<le>s b" and "sint b < 2 ^ 63 - 1" shows "sint (a + 1) = sint a + 1"
proof -
  have "sint a \<le> sint b" using assms(1) by (simp add: word_sle_eq)
  moreover have "- (2 ^ 63) \<le> sint a" using sint_ge [of a] by simp
  ultimately show ?thesis using assms(2)
    by (simp add: sint_word_ariths signed_take_bit_int_eq_self)
qed

lemma sint_succ_less:
  fixes a b :: "64 word"
  assumes "a <s b" shows "sint (a + 1) = sint a + 1"
proof -
  have "sint a < sint b" using assms by (simp add: word_sless_alt)
  moreover have "sint b < 2 ^ 63" using sint_lt [of b] by simp
  moreover have "- (2 ^ 63) \<le> sint a" using sint_ge [of a] by simp
  ultimately show ?thesis
    by (simp add: sint_word_ariths signed_take_bit_int_eq_self)
qed

text \<open>The events of the loop, unfolded at its first attempt.\<close>

lemma loop_log_0: "loop_log r d 0 = [Ping]"
  by (simp add: loop_log_def)

lemma loop_log_Suc:
  "loop_log r d (Suc i) =
     [Ping, Sleep (if ExponentialBackoff r then d * 2 else d)]
       @ loop_log r (if ExponentialBackoff r then d * 2 else d) i"
  unfolding loop_log_def
  by (simp add: map_upt_Suc_shift delay_at_step delay_at_Suc_0 del: upt_Suc)

text \<open>The loop from any attempt on, when call number \<open>i\<close> from now is the first that is
  answered with OK and that attempt is within the bound: by induction on \<open>i\<close>.\<close>

lemma ping_loop_first_OK:
  assumes "sint attempt + int i \<le> sint (Attempts r)"
    and "\<forall>j<i. Status (fst (pinger (pings tr + j))) \<noteq> StatusOK"
    and "Status (fst (pinger (pings tr + i))) = StatusOK"
  shows "ping_loop r pinger attempt d res tr =
           Some (pinger (pings tr + i), tr @ loop_log r d i)"
  using assms
proof (induction i arbitrary: attempt d res tr)
  case 0
  then have "attempt \<le>s Attempts r" by (simp add: word_sle_eq)
  with 0 show ?case by (subst ping_loop.simps) (simp add: Let_def loop_log_0)
next
  case (Suc i)
  have le: "attempt \<le>s Attempts r" and lt: "attempt <s Attempts r"
    using Suc.prems(1) by (simp_all add: word_sle_eq word_sless_alt)
  have nok: "Status (fst (pinger (pings tr))) \<noteq> StatusOK"
    using Suc.prems(2) by (metis add.right_neutral zero_less_Suc)
  let ?d = "if ExponentialBackoff r then d * 2 else d"
  let ?tr = "tr @ [Ping, Sleep ?d]"
  have step: "ping_loop r pinger attempt d res tr =
                ping_loop r pinger (attempt + 1) ?d (pinger (pings tr)) ?tr"
    using le lt nok by (subst ping_loop.simps) (simp add: Let_def)
  have a1: "sint (attempt + 1) + int i \<le> sint (Attempts r)"
    using Suc.prems(1) sint_succ_less [OF lt] by simp
  have a2: "\<forall>j<i. Status (fst (pinger (pings ?tr + j))) \<noteq> StatusOK"
  proof (intro allI impI)
    fix j assume "j < i"
    then have "Suc j < Suc i" by simp
    with Suc.prems(2) have "Status (fst (pinger (pings tr + Suc j))) \<noteq> StatusOK"
      by blast
    then show "Status (fst (pinger (pings ?tr + j))) \<noteq> StatusOK" by simp
  qed
  have a3: "Status (fst (pinger (pings ?tr + i))) = StatusOK"
    using Suc.prems(3) by simp
  show ?case
    unfolding step
    by (subst Suc.IH [OF a1 a2 a3]) (simp add: loop_log_Suc)
qed

text \<open>The loop from any attempt on, when none of the \<open>m\<close> attempts that remain is
  answered with OK: by induction on \<open>m\<close>.\<close>

lemma ping_loop_exhaust:
  assumes "sint (Attempts r) < 2 ^ 63 - 1"
    and "m = nat (sint (Attempts r) + 1 - sint attempt)"
    and "\<forall>j<m. Status (fst (pinger (pings tr + j))) \<noteq> StatusOK"
  shows "ping_loop r pinger attempt d res tr =
           Some (if m = 0 then res else pinger (pings tr + m - 1),
                 if m = 0 then tr else tr @ loop_log r d (m - 1))"
  using assms(2,3)
proof (induction m arbitrary: attempt d res tr)
  case 0
  then have "\<not> attempt \<le>s Attempts r" by (simp add: word_sle_eq)
  then show ?case by (subst ping_loop.simps) simp
next
  case (Suc m)
  have le: "attempt \<le>s Attempts r"
    using Suc.prems(1) by (simp add: word_sle_eq)
  have nok: "Status (fst (pinger (pings tr))) \<noteq> StatusOK"
    using Suc.prems(2) by (metis add.right_neutral zero_less_Suc)
  have succ: "sint (attempt + 1) = sint attempt + 1"
    using le assms(1) by (rule sint_succ_le)
  have m: "m = nat (sint (Attempts r) + 1 - sint (attempt + 1))"
    using Suc.prems(1) succ by simp
  let ?d = "if ExponentialBackoff r then d * 2 else d"
  show ?case
  proof (cases "m = 0")
    case True
    then have last: "\<not> attempt <s Attempts r"
      using Suc.prems(1) by (simp add: word_sless_alt)
    let ?tr = "tr @ [Ping]"
    have step: "ping_loop r pinger attempt d res tr =
                  ping_loop r pinger (attempt + 1) ?d (pinger (pings tr)) ?tr"
      using le last nok by (subst ping_loop.simps) (simp add: Let_def)
    have a2: "\<forall>j<m. Status (fst (pinger (pings ?tr + j))) \<noteq> StatusOK"
      using True by simp
    show ?thesis
      unfolding step by (subst Suc.IH [OF m a2]) (simp add: True loop_log_0)
  next
    case False
    then have lt: "attempt <s Attempts r"
      using Suc.prems(1) by (simp add: word_sless_alt)
    let ?tr = "tr @ [Ping, Sleep ?d]"
    have step: "ping_loop r pinger attempt d res tr =
                  ping_loop r pinger (attempt + 1) ?d (pinger (pings tr)) ?tr"
      using le lt nok by (subst ping_loop.simps) (simp add: Let_def)
    have a2: "\<forall>j<m. Status (fst (pinger (pings ?tr + j))) \<noteq> StatusOK"
    proof (intro allI impI)
      fix j assume "j < m"
      then have "Suc j < Suc m" by simp
      with Suc.prems(2) have "Status (fst (pinger (pings tr + Suc j))) \<noteq> StatusOK"
        by blast
      then show "Status (fst (pinger (pings ?tr + j))) \<noteq> StatusOK" by simp
    qed
    obtain k where k: "m = Suc k" using False by (cases m) auto
    show ?thesis
      unfolding step
      by (subst Suc.IH [OF m a2]) (simp add: k loop_log_Suc)
  qed
qed

lemma loop_log_retry_log:
  "loop_log r (Delay r) i = retry_log (\<lambda>k. delay_at r (Delay r) (k - 1)) (Suc i)"
  unfolding loop_log_def retry_log_def
  by (simp add: map_Suc_upt [symmetric] comp_def del: upt_Suc)

lemma pings_retry_log: "pings (retry_log w n) = n"
proof -
  have "pings (concat (map (\<lambda>k. [Ping, Sleep (w (Suc k))]) ks)) = length ks" for ks
    by (induction ks) (simp_all add: pings_def)
  then show ?thesis
    by (simp add: retry_log_def pings_append) (simp add: pings_def)
qed

lemma last_retry_log: "0 < n \<Longrightarrow> last (tr @ retry_log w n) = Ping"
  by (simp add: retry_log_def)

text \<open>Below the largest \<open>int\<close> the loop returns, whatever the pinger answers.\<close>

lemma ping_returns:
  assumes "sint (Attempts retries) < 2 ^ 63 - 1"
  shows "\<exists>res tr'. ping retries pinger tr = Some (res, tr')"
proof -
  define n where "n = nat (sint (Attempts retries))"
  show ?thesis
  proof (cases "\<exists>i<n. Status (fst (pinger (pings tr + i))) = StatusOK")
    case True
    define i where "i = (LEAST i. i < n \<and> Status (fst (pinger (pings tr + i))) = StatusOK)"
    from True have i: "i < n \<and> Status (fst (pinger (pings tr + i))) = StatusOK"
      unfolding i_def by (rule LeastI_ex)
    have least: "\<forall>j<i. Status (fst (pinger (pings tr + j))) \<noteq> StatusOK"
    proof (intro allI impI)
      fix j assume "j < i"
      then have "\<not> (j < n \<and> Status (fst (pinger (pings tr + j))) = StatusOK)"
        unfolding i_def by (rule not_less_Least)
      with \<open>j < i\<close> i show "Status (fst (pinger (pings tr + j))) \<noteq> StatusOK" by simp
    qed
    have "sint (1 :: 64 word) + int i \<le> sint (Attempts retries)"
      using i unfolding n_def by simp linarith
    from ping_loop_first_OK [OF this least] i show ?thesis
      by (simp add: ping_def)
  next
    case False
    then have nok: "\<forall>j<n. Status (fst (pinger (pings tr + j))) \<noteq> StatusOK" by simp
    have m: "n = nat (sint (Attempts retries) + 1 - sint (1 :: 64 word))"
      by (simp add: n_def)
    from ping_loop_exhaust [OF assms m nok] show ?thesis
      by (simp add: ping_def)
  qed
qed

text \<open>At the largest \<open>int\<close> the test \<open>attempt <= maxAttempts\<close> never fails: with a pinger that
  never answers OK the loop does not return.\<close>

lemma ping_loop_never_returns:
  assumes max: "sint (Attempts retries) = 2 ^ 63 - 1"
    and nok: "\<forall>i. Status (fst (pinger i)) \<noteq> StatusOK"
  shows "ping_loop retries pinger attempt d res tr = None"
proof (rule ccontr)
  assume "ping_loop retries pinger attempt d res tr \<noteq> None"
  then obtain y where y: "ping_loop retries pinger attempt d res tr = Some y" by auto
  have "\<not> (sint (Attempts retries) = 2 ^ 63 - 1 \<and> (\<forall>i. Status (fst (pinger i)) \<noteq> StatusOK))"
  proof (rule ping_loop.raw_induct
      [where P = "\<lambda>retries pinger attempt d res tr y.
                    \<not> (sint (Attempts retries) = 2 ^ 63 - 1
                       \<and> (\<forall>i. Status (fst (pinger i)) \<noteq> StatusOK))", OF _ y])
    fix f retries pinger and attempt :: "64 word" and d res tr y
    assume IH: "\<And>retries pinger attempt d res tr y. f retries pinger attempt d res tr = Some y \<Longrightarrow>
        \<not> (sint (Attempts retries) = 2 ^ 63 - 1 \<and> (\<forall>i. Status (fst (pinger i)) \<noteq> StatusOK))"
      and step: "(if attempt \<le>s Attempts retries
        then let res' = pinger (pings tr); tr1 = tr @ [Ping]
           in if Status (fst res') = StatusOK then Some (res', tr1)
              else let attemptDelay' = if ExponentialBackoff retries then d * 2 else d
                   in Let (if attempt <s Attempts retries
                           then tr1 @ [Sleep attemptDelay'] else tr1)
                       (f retries pinger (attempt + 1) attemptDelay' res')
        else Some (res, tr)) = Some y"
    show "\<not> (sint (Attempts retries) = 2 ^ 63 - 1 \<and> (\<forall>i. Status (fst (pinger i)) \<noteq> StatusOK))"
    proof
      assume a: "sint (Attempts retries) = 2 ^ 63 - 1 \<and> (\<forall>i. Status (fst (pinger i)) \<noteq> StatusOK)"
      then have "attempt \<le>s Attempts retries"
        using sint_lt [of attempt] by (simp add: word_sle_eq)
      with step a obtain d' res' tr' where "f retries pinger (attempt + 1) d' res' tr' = Some y"
        by (auto simp add: Let_def)
      from IH [OF this] a show False by blast
    qed
  qed
  with max nok show False by blast
qed

lemma ping_never_returns:
  assumes "sint (Attempts retries) = 2 ^ 63 - 1"
    and "\<forall>i. Status (fst (pinger i)) \<noteq> StatusOK"
  shows "ping retries pinger tr = None"
  unfolding ping_def using assms by (rule ping_loop_never_returns)

text \<open>
  Claim C1, as the code has it. With exponential backoff and a pinger that answers NOK
  to every call, \<open>ping\<close> returns after \<open>n\<close> attempts, \<open>n\<close> the configured number, and
  the wait before attempt \<open>k\<close>, for \<open>2 \<le> k \<le> n\<close>, is \<open>Delay * 2 ^ (k - 1)\<close> in \<open>int64\<close>
  arithmetic: the delay is doubled before its first use. The last event is the last
  attempt, so no wait follows it. The result is that of the last attempt. For 3
  attempts and a delay of 1s the waits are 2s and 4s. (The bound on \<open>Attempts\<close> is
  needed: see \<open>ping_never_returns\<close>.)
\<close>

theorem ping_backoff_waits:
  assumes "ExponentialBackoff retries"
    and "\<forall>i. Status (fst (pinger i)) = StatusNOK"
    and "sint (Attempts retries) < 2 ^ 63 - 1"
    and "n = nat (sint (Attempts retries))"
  shows "ping retries pinger tr =
           Some (if n = 0 then (zero_Result, None) else pinger (pings tr + n - 1),
                 tr @ retry_log (\<lambda>k. Delay retries * 2 ^ (k - 1)) n)"
proof -
  have m: "n = nat (sint (Attempts retries) + 1 - sint (1 :: 64 word))"
    using assms(4) by simp
  have nok: "\<forall>j<n. Status (fst (pinger (pings tr + j))) \<noteq> StatusOK"
    using assms(2) by simp
  have w: "delay_at retries d j = d * 2 ^ j" for d j
    using assms(1) by (simp add: delay_at_def)
  show ?thesis
  proof (cases n)
    case 0
    with ping_loop_exhaust [OF assms(3) m nok] show ?thesis
      by (simp add: ping_def retry_log_def)
  next
    case (Suc i)
    with ping_loop_exhaust [OF assms(3) m nok] show ?thesis
      by (simp add: ping_def loop_log_retry_log w)
  qed
qed

text \<open>The theorem at 3 attempts and a delay of 1s.\<close>

theorem ping_backoff_waits_witness:
  "ping retries_1s_backoff always_NOK [] =
     Some (result_NOK, [Ping, Sleep 2000000000, Ping, Sleep 4000000000, Ping])"
  using ping_backoff_waits [of retries_1s_backoff always_NOK 3 "[]"]
  by (simp add: retries_1s_backoff_def always_NOK_def result_NOK_def retry_log_def
        upt_conv_Cons)

text \<open>Claim C1 as stated has the wait \<open>Delay * 2 ^ (k - 2)\<close> before attempt \<open>k\<close>, that is
  1s and 2s at 3 attempts and a delay of 1s. The code does not wait so.\<close>

theorem ping_backoff_waits_counterexample:
  "ping retries_1s_backoff always_NOK []
     \<noteq> Some (result_NOK, retry_log (wait_spec (Delay retries_1s_backoff)) 3)"
  by (simp add: ping_def ping_loop.simps retries_1s_backoff_def always_NOK_def result_NOK_def
        retry_log_def wait_spec_def word_sle_eq word_sless_alt pings_def upt_conv_Cons)




text \<open>
  Claim C7. Let call number \<open>i\<close> from now, counted from 0, be the first that the pinger
  answers with OK, and let attempt \<open>i + 1\<close> be within the configured attempts. Then
  \<open>ping\<close> returns the result and output of that call; it has made exactly \<open>i + 1\<close>
  calls, with one wait before each retry, and the last event is that call: no
  attempt and no wait follows it.
\<close>

theorem ping_stops_at_first_OK:
  assumes "int (Suc i) \<le> sint (Attempts retries)"
    and "\<forall>j<i. Status (fst (pinger (pings tr + j))) \<noteq> StatusOK"
    and "Status (fst (pinger (pings tr + i))) = StatusOK"
    and "tr' = tr @ retry_log (\<lambda>k. delay_at retries (Delay retries) (k - 1)) (Suc i)"
  shows "ping retries pinger tr = Some (pinger (pings tr + i), tr')
         \<and> pings tr' = pings tr + Suc i \<and> last tr' = Ping"
proof -
  have a: "sint (1 :: 64 word) + int i \<le> sint (Attempts retries)"
    using assms(1) by simp
  show ?thesis
    using ping_loop_first_OK [OF a assms(2,3)] assms(4)
    by (simp add: ping_def loop_log_retry_log pings_append pings_retry_log last_retry_log
          del: last_append)
qed

text \<open>The theorem at 3 attempts and a pinger that answers NOK once, then OK: two calls,
  and the result is OK.\<close>

theorem ping_stops_at_first_OK_witness:
  "ping retries_1s_backoff NOK_then_OK [] = Some (result_OK, [Ping, Sleep 2000000000, Ping])
   \<and> pings [Ping, Sleep 2000000000, Ping] = 2"
  using ping_stops_at_first_OK [of 1 retries_1s_backoff NOK_then_OK "[]"
          "[Ping, Sleep 2000000000, Ping]"]
  by (simp add: retries_1s_backoff_def NOK_then_OK_def result_NOK_def result_OK_def
        retry_log_def delay_at_def)


section \<open>The status of a task\<close>

text \<open>
  Claim C5. After \<open>updateStatus\<close> with a result, \<open>Consecutive\<close> is 1 if the status of the
  result differs from that of the previous latest result, and the previous
  \<open>Consecutive\<close> plus 1 if the two are equal. The addition is Go's: on the 64-bit
  \<open>int\<close>, so the count read as an integer is the previous count plus 1 below the
  largest \<open>int\<close>. The status sent on the channel is the updated one.
\<close>

theorem updateStatus_Consecutive:
  "(Status result \<noteq> Status (LatestResult (Status_PingerTask task))
      \<longrightarrow> Consecutive (Status_PingerTask (fst (updateStatus task result output now))) = 1)
   \<and> (Status result = Status (LatestResult (Status_PingerTask task))
      \<longrightarrow> Consecutive (Status_PingerTask (fst (updateStatus task result output now)))
            = Consecutive (Status_PingerTask task) + 1)
   \<and> (Status result = Status (LatestResult (Status_PingerTask task))
        \<and> sint (Consecutive (Status_PingerTask task)) < 2 ^ 63 - 1
      \<longrightarrow> sint (Consecutive (Status_PingerTask (fst (updateStatus task result output now))))
            = sint (Consecutive (Status_PingerTask task)) + 1)
   \<and> Status_StatusUpdate (snd (updateStatus task result output now))
       = Status_PingerTask (fst (updateStatus task result output now))"
proof -
  have "sint (c + 1) = sint c + 1" if "sint c < 2 ^ 63 - 1" for c :: "64 word"
  proof -
    have "- (2 ^ 63) \<le> sint c" using sint_ge [of c] by simp
    with that show ?thesis
      by (simp add: sint_word_ariths signed_take_bit_int_eq_self)
  qed
  then show ?thesis
    by (simp add: updateStatus_def Let_def split: Status.split)
qed

text \<open>The theorem at a first OK after the initial status, and at an OK after three
  OKs.\<close>

theorem updateStatus_Consecutive_witness:
  "Consecutive (Status_PingerTask (fst (updateStatus task_example (fst result_OK) (snd result_OK) 5))) = 1
   \<and> Consecutive (Status_PingerTask (fst (updateStatus task_OK_3 (fst result_OK) (snd result_OK) 9))) = 4
   \<and> sint (Consecutive (Status_PingerTask (fst (updateStatus task_OK_3 (fst result_OK) (snd result_OK) 9)))) = 4"
proof -
  have differs: "Status (fst result_OK) \<noteq> Status (LatestResult (Status_PingerTask task_example))"
    by (simp add: task_example_def Start_init_def result_OK_def)
  have same: "Status (fst result_OK) = Status (LatestResult (Status_PingerTask task_OK_3))"
    and c: "Consecutive (Status_PingerTask task_OK_3) = 3"
    by (simp_all add: task_OK_3_def result_OK_def)
  from updateStatus_Consecutive [of "fst result_OK" task_example "snd result_OK" 5] differs
  have "Consecutive (Status_PingerTask (fst (updateStatus task_example (fst result_OK) (snd result_OK) 5))) = 1"
    by blast
  moreover
  from updateStatus_Consecutive [of "fst result_OK" task_OK_3 "snd result_OK" 9] same c
  have "Consecutive (Status_PingerTask (fst (updateStatus task_OK_3 (fst result_OK) (snd result_OK) 9))) = 4"
    and "sint (Consecutive (Status_PingerTask (fst (updateStatus task_OK_3 (fst result_OK) (snd result_OK) 9)))) = 4"
    by simp_all
  ultimately show ?thesis by simp
qed

text \<open>
  Claim C6. \<open>updateStatus\<close> writes \<open>LatestOK\<close> exactly when the status of the result is
  OK, and \<open>LatestNOK\<close> exactly when it is NOK; what it writes is the current time. On
  any other status the field keeps its value, so a result with status Unknown leaves
  both as they were.
\<close>

theorem updateStatus_timestamps:
  "LatestOK (Status_PingerTask (fst (updateStatus task result output now)))
     = (if Status result = StatusOK then Some now else LatestOK (Status_PingerTask task))
   \<and> LatestNOK (Status_PingerTask (fst (updateStatus task result output now)))
     = (if Status result = StatusNOK then Some now else LatestNOK (Status_PingerTask task))"
  by (simp add: updateStatus_def Let_def split: Status.split)

text \<open>The pingers of the example configurations.\<close>

lemma newPinger_example:
  "newPinger env_example pinger_a = Returns (Inr (HTTP \<lparr>URL = ''https://a.example'', VerifyCert = True, BasicAuth = None, Expect_StatusCode = 200, Timeout = None\<rparr>))"
  "newPinger env_example pinger_a_again = Returns (Inr (HTTP \<lparr>URL = ''https://other.example'', VerifyCert = True, BasicAuth = None, Expect_StatusCode = 200, Timeout = None\<rparr>))"
  "newPinger env_example pinger_b = Returns (Inr (HTTP \<lparr>URL = ''https://b.example'', VerifyCert = True, BasicAuth = None, Expect_StatusCode = 200, Timeout = None\<rparr>))"
  "newPinger env_example pinger_ftp = Returns (Inl ''unknown pinger type: ftp'')"
  "newPinger env_example pinger_timeout_5 = Panics"
  by (simp_all add: newPinger_def NewHTTPPinger_def HTTPCheck_Validate_def
        HTTPExpectation_Validate_def ValidHTTPStatusCode_def Duration_UnmarshalJSON_def
        env_example_def check_timeout_5_def
        pinger_a_def pinger_a_again_def pinger_b_def pinger_ftp_def pinger_timeout_5_def)

text \<open>
  Claim C8, as the code has it. \<open>Start\<close> sets the status of its task to: latest result
  Unknown (with the error "no ping performed yet"), \<open>Consecutive = 1\<close>, no \<open>LatestOK\<close>
  and no \<open>LatestNOK\<close>, whatever the status was; only \<open>updateStatus\<close>, at the end of a
  cycle, changes it afterwards. The task that \<open>NewEngine\<close> constructs has the zero
  status until \<open>Start\<close> runs: Unknown, no error, \<open>Consecutive = 0\<close>, no timestamps.
\<close>

theorem Start_init_Status:
  "Status_PingerTask (Start_init task)
     = \<lparr>LatestResult = \<lparr>Status = StatusUnknown, Error = Some ''no ping performed yet''\<rparr>,
        Consecutive = 1, LatestOK = None, LatestNOK = None\<rparr>
   \<and> Status_PingerTask (newPingerTask pingerConf pinger schedule)
     = \<lparr>LatestResult = \<lparr>Status = StatusUnknown, Error = None\<rparr>,
        Consecutive = 0, LatestOK = None, LatestNOK = None\<rparr>"
  by (simp add: Start_init_def newPingerTask_def zero_PingerTaskStatus_def zero_Result_def)

text \<open>Claim C8 as stated holds of every task before its first completed cycle. The task
  \<open>a\<close> of an engine that \<open>NewEngine\<close> has just returned has completed no cycle, and its
  \<open>Consecutive\<close> is 0.\<close>

theorem Start_init_Status_counterexample:
  "(case NewEngine env_example conf_a_b [] of
      Returns (Some engine, None, Some dispatcher) \<Rightarrow>
        map_option (Consecutive \<circ> Status_PingerTask) (Pingers_Engine engine ''a'') = Some 0
    | _ \<Rightarrow> False)"
  by (simp add: NewEngine_def Let_def NewDispatcher_def conf_a_b_def newPinger_example alerter_example_def)
     (simp add: pinger_a_def pinger_b_def newPingerTask_def zero_PingerTaskStatus_def)


section \<open>The decision of the dispatcher\<close>

text \<open>\<open>time.Since\<close> on a time that is not later than the clock.\<close>

lemma sint_Since:
  assumes "lastAlert \<le> now"
  shows "sint (Since now lastAlert) = min (now - lastAlert) (2 ^ 63 - 1)"
proof -
  define d where "d = now - lastAlert"
  have fit: "sint (word_of_int k :: 64 word) = k" if "0 \<le> k" "k \<le> 2 ^ 63 - 1" for k :: int
    using that by (simp add: sint_sbintrunc' signed_take_bit_int_eq_self)
  have d: "0 \<le> d" using assms by (simp add: d_def)
  have "sint (Sub now lastAlert) = min d (2 ^ 63 - 1)"
  proof (cases "d > 2 ^ 63 - 1")
    case True
    then have "Sub now lastAlert = word_of_int (2 ^ 63 - 1)"
      unfolding Sub_def Let_def maxDuration_def d_def [symmetric] by simp
    with True show ?thesis by simp
  next
    case False
    then have "Sub now lastAlert = word_of_int d"
      using d unfolding Sub_def Let_def maxDuration_def minDuration_def d_def [symmetric]
      by simp
    with False d fit [of d] show ?thesis by simp
  qed
  then show ?thesis by (simp add: Since_def d_def)
qed

text \<open>In that range the test \<open>timeUntilReminder <= 0\<close> compares the time elapsed with the
  reminder delay.\<close>

lemma timeUntilReminder:
  assumes "0 \<le> sint reminder" and "lastAlert \<le> now"
  shows "sint (reminder - Since now lastAlert) \<le> 0 \<longleftrightarrow> sint reminder \<le> now - lastAlert"
proof -
  let ?s = "sint (Since now lastAlert)"
  have s: "?s = min (now - lastAlert) (2 ^ 63 - 1)"
    using assms(2) by (rule sint_Since)
  have r: "sint reminder \<le> 2 ^ 63 - 1" using sint_lt [of reminder] by simp
  have "0 \<le> ?s" and "?s \<le> 2 ^ 63 - 1" using s assms(2) by simp_all
  then have "sint (reminder - Since now lastAlert) = sint reminder - ?s"
    using assms(1) r by (simp add: sint_word_ariths signed_take_bit_int_eq_self)
  then show ?thesis using s r by (simp add: min_def)
qed

text \<open>
  Claim C3, as the code has it. For a status update whose latest status is NOK and
  whose \<open>Consecutive\<close> is not 1: with no dispatch recorded for the pinger in
  \<open>alertHistory\<close>, \<open>shouldPublish\<close> suppresses the update; with a dispatch recorded, it
  alerts exactly when \<open>reminderDelay - time.Since(lastAlert) <= 0\<close> in \<open>int64\<close>
  arithmetic, which, for a reminder delay that is not negative and a recorded dispatch
  that is not later than the clock, is: the time elapsed since the recorded dispatch
  is at least the reminder delay.
\<close>

theorem shouldPublish_reminder:
  assumes "Status (LatestResult (Status_StatusUpdate update)) = StatusNOK"
    and "Consecutive (Status_StatusUpdate update) \<noteq> 1"
  shows "(alertHistory dispatcher (Name_StatusUpdate update) = None
            \<longrightarrow> \<not> shouldPublish dispatcher update now)
       \<and> (\<forall>lastAlert. alertHistory dispatcher (Name_StatusUpdate update) = Some lastAlert
            \<longrightarrow> shouldPublish dispatcher update now
                  = (sint (reminderDelay dispatcher - Since now lastAlert) \<le> 0))
       \<and> (\<forall>lastAlert. alertHistory dispatcher (Name_StatusUpdate update) = Some lastAlert
              \<and> 0 \<le> sint (reminderDelay dispatcher) \<and> lastAlert \<le> now
            \<longrightarrow> shouldPublish dispatcher update now
                  = (now - lastAlert \<ge> sint (reminderDelay dispatcher)))"
  using assms
  by (auto simp add: shouldPublish_def statusChanged_def Let_def word_sle_eq timeUntilReminder)

text \<open>The theorem at a reminder delay of 10s: a second NOK with no dispatch recorded is
  suppressed; with a dispatch recorded at time 0, the NOK at 1s is suppressed and the
  NOK at 11s alerts.\<close>

theorem shouldPublish_reminder_witness:
  "\<not> shouldPublish dispatcher_no_history (update_web StatusNOK 2) 11000000000
   \<and> \<not> shouldPublish dispatcher_alerted_at_0 (update_web StatusNOK 2) 1000000000
   \<and> shouldPublish dispatcher_alerted_at_0 (update_web StatusNOK 3) 11000000000"
  using shouldPublish_reminder [of "update_web StatusNOK 2" dispatcher_no_history 11000000000]
        shouldPublish_reminder [of "update_web StatusNOK 2" dispatcher_alerted_at_0 1000000000]
        shouldPublish_reminder [of "update_web StatusNOK 3" dispatcher_alerted_at_0 11000000000]
  by (simp add: update_web_def dispatcher_no_history_def dispatcher_alerted_at_0_def
        Since_def Sub_def maxDuration_def minDuration_def)

text \<open>Claim C3 as stated alerts when no dispatch is recorded. At a NOK update with
  \<open>Consecutive = 2\<close> and an empty \<open>alertHistory\<close> the reminder rule of the specification
  holds, and \<open>shouldPublish\<close> suppresses the update.\<close>

theorem shouldPublish_reminder_counterexample:
  "Status (LatestResult (Status_StatusUpdate (update_web StatusNOK 2))) = StatusNOK
   \<and> Consecutive (Status_StatusUpdate (update_web StatusNOK 2)) \<noteq> 1
   \<and> alertHistory dispatcher_no_history (Name_StatusUpdate (update_web StatusNOK 2)) = None
   \<and> reminder_rule_spec dispatcher_no_history (update_web StatusNOK 2) 11000000000
   \<and> \<not> shouldPublish dispatcher_no_history (update_web StatusNOK 2) 11000000000"
  by (simp add: shouldPublish_def statusChanged_def reminder_rule_spec_def update_web_def
        dispatcher_no_history_def)





section \<open>The construction of the engine\<close>

text \<open>The three ways for a pinger to fail that the specification names: an unknown type,
  a check that does not validate, a command file that cannot be read.\<close>

lemma newPinger_unknown_type:
  assumes "Type pingerConf \<noteq> ''ssh''" and "Type pingerConf \<noteq> ''http''"
  shows "newPinger env pingerConf = Returns (Inl (''unknown pinger type: '' @ Type pingerConf))"
  using assms by (simp add: newPinger_def)

lemma newPinger_invalid_check:
  "Type pingerConf = ''http''
     \<Longrightarrow> json_Unmarshal env (json_HTTPCheck env (Check pingerConf)) = Returns (Inr check)
     \<Longrightarrow> HTTPCheck_Validate env check = Some err
     \<Longrightarrow> newPinger env pingerConf = Returns (Inl (''http pinger: invalid check: '' @ err))"
  "Type pingerConf = ''ssh''
     \<Longrightarrow> json_Unmarshal env (json_SSHCheck env (Check pingerConf)) = Returns (Inr sshCheck)
     \<Longrightarrow> SSHCheck_Validate env sshCheck = Some err
     \<Longrightarrow> newPinger env pingerConf = Returns (Inl (''ssh pinger: invalid check: '' @ err))"
  by (simp_all add: newPinger_def NewHTTPPinger_def NewSSHPinger_def)

lemma newPinger_unreadable_command_file:
  assumes "Type pingerConf = ''ssh''"
    and "json_Unmarshal env (json_SSHCheck env (Check pingerConf)) = Returns (Inr sshCheck)"
    and "SSHCheck_Validate env sshCheck = None"
    and "Command sshCheck = []"
    and "ioutil_ReadFile env (CommandFile sshCheck) = Inl err"
  shows "newPinger env pingerConf = Returns (Inl (''ssh pinger: illegal command: '' @ err))"
proof -
  have "CommandFile sshCheck \<noteq> []"
    using assms(3,4) by (auto simp add: SSHCheck_Validate_def split: if_splits option.splits)
  then show ?thesis
    using assms by (simp add: newPinger_def NewSSHPinger_def loadCommand_def)
qed

text \<open>A fourth way, which is no error: a \<open>timeout\<close> whose JSON value has fewer than two
  bytes makes \<open>Duration.UnmarshalJSON\<close> panic, and nothing recovers the panic.\<close>

lemma newPinger_timeout_panics:
  assumes "Type pingerConf = ''http''"
    and "json_HTTPCheck env (Check pingerConf) = Decode_Duration b continue"
    and "length b < 2"
  shows "newPinger env pingerConf = Panics"
  using assms by (simp add: newPinger_def NewHTTPPinger_def Duration_UnmarshalJSON_def)

text \<open>The loop of \<open>NewEngine\<close> returns an error if one pinger fails to instantiate and none
  panics, whatever it has built before.\<close>

lemma NewEngine_loop_fails:
  assumes "\<forall>pingerConf \<in> set confs. newPinger env pingerConf \<noteq> Panics"
    and "\<exists>pingerConf \<in> set confs. \<exists>err. newPinger env pingerConf = Returns (Inl err)"
  shows "\<exists>err. NewEngine_loop env dflt confs pingers = Returns (Inl err)"
  using assms
proof (induction confs arbitrary: pingers)
  case Nil
  then show ?case by simp
next
  case (Cons pingerConf rest)
  from Cons.prems(1) obtain r where r: "newPinger env pingerConf = Returns r"
    by (cases "newPinger env pingerConf") auto
  show ?case
  proof (cases r)
    case (Inl err)
    with r show ?thesis by simp
  next
    case (Inr pinger)
    with r Cons.prems have "\<forall>c \<in> set rest. newPinger env c \<noteq> Panics"
      and "\<exists>c \<in> set rest. \<exists>err. newPinger env c = Returns (Inl err)" by auto
    from Cons.IH [OF this] r Inr show ?thesis by simp
  qed
qed

text \<open>If every pinger instantiates, the loop adds the names of the configuration to the
  map; with distinct names, each name holds the task of its own configuration.\<close>

lemma NewEngine_loop_succeeds:
  assumes "\<forall>pingerConf \<in> set confs. \<exists>pinger. newPinger env pingerConf = Returns (Inr pinger)"
  shows "\<exists>pingers'. NewEngine_loop env dflt confs pingers = Returns (Inr pingers')
           \<and> dom pingers' = dom pingers \<union> Name ` set confs
           \<and> (\<forall>name. name \<notin> Name ` set confs \<longrightarrow> pingers' name = pingers name)
           \<and> (distinct (map Name confs) \<longrightarrow>
                (\<forall>pingerConf \<in> set confs. \<exists>pinger.
                   newPinger env pingerConf = Returns (Inr pinger)
                   \<and> pingers' (Name pingerConf)
                       = Some (newPingerTask pingerConf pinger (pingerSchedule dflt pingerConf))))"
  using assms
proof (induction confs arbitrary: pingers)
  case Nil
  then show ?case by simp
next
  case (Cons pingerConf rest)
  from Cons.prems obtain pinger where p: "newPinger env pingerConf = Returns (Inr pinger)"
    by auto
  let ?task = "newPingerTask pingerConf pinger (pingerSchedule dflt pingerConf)"
  let ?pingers = "pingers(Name pingerConf \<mapsto> ?task)"
  from Cons.prems have "\<forall>c \<in> set rest. \<exists>pinger. newPinger env c = Returns (Inr pinger)"
    by simp
  from Cons.IH [OF this, of ?pingers] obtain pingers' where
    loop: "NewEngine_loop env dflt rest ?pingers = Returns (Inr pingers')"
    and dom: "dom pingers' = dom ?pingers \<union> Name ` set rest"
    and frame: "\<forall>name. name \<notin> Name ` set rest \<longrightarrow> pingers' name = ?pingers name"
    and tasks: "distinct (map Name rest) \<longrightarrow>
                (\<forall>c \<in> set rest. \<exists>pinger. newPinger env c = Returns (Inr pinger)
                   \<and> pingers' (Name c) = Some (newPingerTask c pinger (pingerSchedule dflt c)))"
    by blast
  have "NewEngine_loop env dflt (pingerConf # rest) pingers = Returns (Inr pingers')"
    using p loop by simp
  moreover have "dom pingers' = dom pingers \<union> Name ` set (pingerConf # rest)"
    using dom by auto
  moreover have "\<forall>name. name \<notin> Name ` set (pingerConf # rest) \<longrightarrow> pingers' name = pingers name"
    using frame by simp
  moreover have "distinct (map Name (pingerConf # rest)) \<longrightarrow>
                (\<forall>c \<in> set (pingerConf # rest). \<exists>pinger. newPinger env c = Returns (Inr pinger)
                   \<and> pingers' (Name c) = Some (newPingerTask c pinger (pingerSchedule dflt c)))"
  proof
    assume d: "distinct (map Name (pingerConf # rest))"
    then have "Name pingerConf \<notin> Name ` set rest" by simp
    with frame have "pingers' (Name pingerConf) = Some ?task" by simp
    with p tasks d show "\<forall>c \<in> set (pingerConf # rest). \<exists>pinger.
                   newPinger env c = Returns (Inr pinger)
                   \<and> pingers' (Name c) = Some (newPingerTask c pinger (pingerSchedule dflt c))"
      by simp
  qed
  ultimately show ?case by blast
qed

text \<open>\<open>NewDispatcher\<close> on a configuration that is not \<open>nil\<close> returns a dispatcher with
  an empty history.\<close>

lemma NewDispatcher_Some:
  "\<exists>dispatcher. NewDispatcher (Some conf) = Returns (Inr dispatcher)
      \<and> alertHistory dispatcher = Map.empty"
  by (cases "Email conf") (simp_all add: NewDispatcher_def NewEmailAlerter_def)

text \<open>\<open>Engine.Validate\<close> refuses a configuration in which two pingers have the same
  name.\<close>

lemma Engine_Validate_loop_duplicate:
  assumes "(\<exists>pinger \<in> set confs. Name pinger \<in> takenNames) \<or> \<not> distinct (map Name confs)"
  shows "Engine_Validate_loop env confs takenNames \<noteq> None"
  using assms
proof (induction confs arbitrary: takenNames)
  case Nil
  then show ?case by simp
next
  case (Cons pinger rest)
  show ?case
  proof (cases "Name pinger \<in> takenNames \<or> Pinger_Validate env pinger \<noteq> None")
    case True
    then show ?thesis by auto
  next
    case False
    with Cons.prems
    have "(\<exists>c \<in> set rest. Name c \<in> insert (Name pinger) takenNames)
            \<or> \<not> distinct (map Name rest)"
      by auto
    from Cons.IH [OF this] False show ?thesis by auto
  qed
qed

lemma Engine_Validate_distinct:
  assumes "Engine_Validate env engineConf = None"
  shows "distinct (map Name (Pingers engineConf))"
proof (rule ccontr)
  assume "\<not> distinct (map Name (Pingers engineConf))"
  then have "Engine_Validate_loop env (Pingers engineConf) {} \<noteq> None"
    by (simp add: Engine_Validate_loop_duplicate)
  with assms show False
    by (auto simp add: Engine_Validate_def split: option.splits)
qed

text \<open>What \<open>NewEngine\<close> does when no pinger panics and the configuration has an alerter:
  if the pinger of any endpoint fails to instantiate, it returns an error and no
  engine; if every pinger instantiates and the names are distinct, as they are in a
  valid configuration, it returns an engine and no error, and the engine holds exactly
  one task for each configured endpoint.\<close>

lemma NewEngine_returns_error:
  assumes "\<forall>pingerConf \<in> set (Pingers engineConf). newPinger env pingerConf \<noteq> Panics"
    and "\<exists>pingerConf \<in> set (Pingers engineConf). \<exists>err.
           newPinger env pingerConf = Returns (Inl err)"
  shows "\<exists>err. NewEngine env engineConf url = Returns (None, Some err, None)"
proof -
  from NewEngine_loop_fails [OF assms]
  obtain err where
    "NewEngine_loop env (defaultSchedule_of engineConf) (Pingers engineConf) Map.empty
       = Returns (Inl err)"
    by blast
  then show ?thesis by (simp add: NewEngine_def)
qed

lemma NewEngine_returns_engine:
  assumes all: "\<forall>pingerConf \<in> set (Pingers engineConf). \<exists>pinger.
                  newPinger env pingerConf = Returns (Inr pinger)"
    and d: "distinct (map Name (Pingers engineConf))"
    and alerter: "Alerter engineConf \<noteq> None"
  shows "\<exists>engine dispatcher.
            NewEngine env engineConf url = Returns (Some engine, None, Some dispatcher)
            \<and> card (dom (Pingers_Engine engine)) = length (Pingers engineConf)
            \<and> (\<forall>pingerConf \<in> set (Pingers engineConf). \<exists>pinger.
                  newPinger env pingerConf = Returns (Inr pinger)
                  \<and> Pingers_Engine engine (Name pingerConf)
                      = Some (newPingerTask pingerConf pinger
                               (pingerSchedule (defaultSchedule_of engineConf) pingerConf)))"
proof -
  from alerter obtain conf where conf: "Alerter engineConf = Some conf" by auto
  let ?dflt = "defaultSchedule_of engineConf"
  from NewEngine_loop_succeeds [OF all, of ?dflt Map.empty] d obtain pingers where
    loop: "NewEngine_loop env ?dflt (Pingers engineConf) Map.empty = Returns (Inr pingers)"
    and dom: "dom pingers = Name ` set (Pingers engineConf)"
    and tasks: "\<forall>c \<in> set (Pingers engineConf). \<exists>pinger. newPinger env c = Returns (Inr pinger)
                   \<and> pingers (Name c) = Some (newPingerTask c pinger (pingerSchedule ?dflt c))"
    by auto
  obtain dispatcher where disp: "NewDispatcher (Alerter engineConf) = Returns (Inr dispatcher)"
    using conf NewDispatcher_Some [of conf] by auto
  have "card (dom pingers) = length (Pingers engineConf)"
    using dom d distinct_card [of "map Name (Pingers engineConf)"] by simp
  with loop disp tasks show ?thesis
    by (simp add: NewEngine_def)
qed

text \<open>Without an alerter in the configuration \<open>NewEngine\<close> does not return: once the
  pingers are built, \<open>NewDispatcher\<close> dereferences the \<open>nil\<close> configuration.\<close>

lemma NewEngine_nil_Alerter:
  assumes "\<forall>pingerConf \<in> set (Pingers engineConf). \<exists>pinger.
             newPinger env pingerConf = Returns (Inr pinger)"
    and "Alerter engineConf = None"
  shows "NewEngine env engineConf url = Panics"
proof -
  from NewEngine_loop_succeeds [OF assms(1)] obtain pingers where
    "NewEngine_loop env (defaultSchedule_of engineConf) (Pingers engineConf) Map.empty
       = Returns (Inr pingers)"
    by blast
  then show ?thesis
    using assms(2) by (simp add: NewEngine_def NewDispatcher_def)
qed

text \<open>The example configurations pass \<open>Engine.Validate\<close>.\<close>

lemma Engine_Validate_example:
  "Engine_Validate env_example conf_no_alerter = None"
  "Engine_Validate env_example conf_timeout_5 = None"
  by (simp_all add: Engine_Validate_def Pinger_Validate_def Alerter_Validate_def
        ValidHostOrIpAddr_def ValidPort_def env_example_def conf_no_alerter_def
        conf_timeout_5_def pinger_a_def pinger_timeout_5_def check_timeout_5_def
        alerter_example_def)

text \<open>
  Claim C9, where the code breaks it. The claim has \<open>NewEngine\<close> return an engine with
  one task for each endpoint if every pinger instantiates, and an error if one does
  not. Two configurations that pass \<open>Engine.Validate\<close> make \<open>NewEngine\<close> panic instead.
  The first has one HTTP endpoint, whose pinger instantiates, and no alerter, which the
  README allows and \<open>main\<close> and \<open>Engine.Validate\<close> test for: \<open>NewDispatcher\<close> dereferences the
  \<open>nil\<close> configuration. The second has an alerter and an endpoint whose check has the
  invalid parameter \<open>timeout: 5\<close>: \<open>Duration.UnmarshalJSON\<close> slices \<open>b[1:0]\<close>.
\<close>

theorem NewEngine_panics:
  "Engine_Validate env_example conf_no_alerter = None
   \<and> length (Pingers conf_no_alerter) = 1
   \<and> newPinger env_example (hd (Pingers conf_no_alerter))
       = Returns (Inr (HTTP \<lparr>URL = ''https://a.example'', VerifyCert = True, BasicAuth = None,
                              Expect_StatusCode = 200, Timeout = None\<rparr>))
   \<and> NewEngine env_example conf_no_alerter [] = Panics
   \<and> Engine_Validate env_example conf_timeout_5 = None
   \<and> NewEngine env_example conf_timeout_5 [] = Panics"
proof -
  have "length (Pingers conf_no_alerter) = 1"
    and "newPinger env_example (hd (Pingers conf_no_alerter))
       = Returns (Inr (HTTP \<lparr>URL = ''https://a.example'', VerifyCert = True, BasicAuth = None,
                              Expect_StatusCode = 200, Timeout = None\<rparr>))"
    by (simp_all add: conf_no_alerter_def newPinger_example)
  moreover have "NewEngine env_example conf_no_alerter [] = Panics"
    by (simp add: NewEngine_def Let_def NewDispatcher_def conf_no_alerter_def
          newPinger_example)
  moreover have "NewEngine env_example conf_timeout_5 [] = Panics"
    by (simp add: NewEngine_def Let_def conf_timeout_5_def newPinger_example)
  ultimately show ?thesis
    using Engine_Validate_example by simp
qed


section \<open>The results of the pingers\<close>

text \<open>
  Claim C10. Whatever the network answers, the result of \<open>Ping\<close> of the HTTP pinger
  and of the SSH pinger has status OK or NOK, never Unknown, and its error is \<open>nil\<close>
  exactly when the status is OK.
\<close>

theorem Ping_OK_or_NOK:
  "Status (fst (HTTPPinger_Ping check w)) \<in> {StatusOK, StatusNOK}
   \<and> (Error (fst (HTTPPinger_Ping check w)) = None)
       = (Status (fst (HTTPPinger_Ping check w)) = StatusOK)
   \<and> Status (fst (SSHPinger_Ping sshPinger w')) \<in> {StatusOK, StatusNOK}
   \<and> (Error (fst (SSHPinger_Ping sshPinger w')) = None)
       = (Status (fst (SSHPinger_Ping sshPinger w')) = StatusOK)"
  by (simp add: HTTPPinger_Ping_def SSHPinger_Ping_def Let_def split: option.split sum.split)

end
